theory Spec2Isabelle
  imports Complex_Main "HOL-Library.AList"
begin

section \<open>The JavaScript values the component handles\<close>

text \<open>
  The component of \<^verbatim>\<open>TranslationEditor.tsx\<close> is typed in TypeScript, whose types are
  erased when it runs: \<^verbatim>\<open>JSON.parse(...) as TranslationData\<close> checks nothing. What
  \<^verbatim>\<open>JSON.parse\<close> returns is any JSON value, and \<^verbatim>\<open>value.defaultMessage\<close> of a
  property that lacks the field is \<^verbatim>\<open>undefined\<close>, so the model carries the values of the
  running program.

  A string is a \<open>string\<close>: one \<open>char\<close> per code unit, the code units below 256.
  A number is a finite value or an infinity (\<^verbatim>\<open>JSON.parse\<close> makes no NaN; the two
  zeros are equal under \<^verbatim>\<open>===\<close> and both falsy, and are one value here).
  An object is the list of its own enumerable properties in the order of their
  creation; its property names are distinct.
\<close>

datatype jsnumber = Finite rat | Infinite bool

datatype jsval =
    JUndefined
  | JNull
  | JBool bool
  | JNum jsnumber
  | JStr string
  | JArr "jsval list"
  | JObj "(string \<times> jsval) list"

datatype js_error = SyntaxError | TypeError

text \<open>Truthiness (\<^verbatim>\<open>ToBoolean\<close>), as \<^verbatim>\<open>cond ? a : b\<close> reads its condition.\<close>

fun truthy :: "jsval \<Rightarrow> bool" where
  "truthy JUndefined = False"
| "truthy JNull = False"
| "truthy (JBool b) = b"
| "truthy (JNum (Finite r)) = (r \<noteq> 0)"
| "truthy (JNum (Infinite s)) = True"
| "truthy (JStr s) = (s \<noteq> [])"
| "truthy (JArr xs) = True"
| "truthy (JObj ps) = True"

subsection \<open>Strings\<close>

text \<open>
  \<^verbatim>\<open>String.prototype.trim\<close> removes white space and line terminators from both ends;
  below 256 these are TAB, LF, VT, FF, CR, SPACE and NBSP.
\<close>

definition whitespace :: "char \<Rightarrow> bool" where
  "whitespace c = (c \<in> set [CHR 0x09, CHR 0x0A, CHR 0x0B, CHR 0x0C, CHR 0x0D, CHR 0x20, CHR 0xA0])"

definition trim :: "string \<Rightarrow> string" where
  "trim s = rev (dropWhile whitespace (rev (dropWhile whitespace s)))"

text \<open>
  \<^verbatim>\<open>v.trim()\<close> on a value: only a string has the method; on \<^verbatim>\<open>undefined\<close> and
  \<^verbatim>\<open>null\<close> the property read throws, on any other value the call of the missing
  method does.
\<close>

fun trim_of :: "jsval \<Rightarrow> js_error + string" where
  "trim_of (JStr s) = Inr (trim s)"
| "trim_of v = Inl TypeError"

text \<open>\<^verbatim>\<open>s.replace(pat, '')\<close> with a string pattern removes the first occurrence of it.\<close>

fun remove_first :: "string \<Rightarrow> string \<Rightarrow> string" where
  "remove_first pat [] = []"
| "remove_first pat (c # cs) =
     (if take (length pat) (c # cs) = pat then drop (length pat) (c # cs)
      else c # remove_first pat cs)"

text \<open>
  \<^verbatim>\<open>s.replace(/\.json$/, '')\<close>: the pattern is anchored at the end of the string (no
  \<^verbatim>\<open>m\<close> flag), so it removes \<^verbatim>\<open>.json\<close> when the string ends with it.
\<close>

definition strip_json_suffix :: "string \<Rightarrow> string" where
  "strip_json_suffix s =
     (if 5 \<le> length s \<and> drop (length s - 5) s = ''.json'' then take (length s - 5) s else s)"

text \<open>\<^verbatim>\<open>n.toString()\<close> of a non-negative integer below \<^verbatim>\<open>1e21\<close>: its decimal digits.\<close>

definition digit_char :: "nat \<Rightarrow> char" where
  "digit_char d = ''0123456789'' ! (d mod 10)"

fun string_of_nat :: "nat \<Rightarrow> string" where
  "string_of_nat n =
     (if n < 10 then [digit_char n] else string_of_nat (n div 10) @ [digit_char (n mod 10)])"

declare string_of_nat.simps [simp del]

definition is_digit :: "char \<Rightarrow> bool" where
  "is_digit c = (c \<in> set ''0123456789'')"

definition digit_value :: "char \<Rightarrow> nat" where
  "digit_value c = of_char c - 48"

definition nat_of_string :: "string \<Rightarrow> nat" where
  "nat_of_string s = foldl (\<lambda>n c. 10 * n + digit_value c) 0 s"

subsection \<open>Objects\<close>

text \<open>
  An array index is a property name that is the canonical decimal form of an integer
  below \<open>2^32 - 1\<close>: digits only, no leading zero but in \<^verbatim>\<open>0\<close> itself. The own
  property keys of an object are listed with the array indices first, in ascending
  numeric order, then the other names in the order of their creation; \<^verbatim>\<open>Object.entries\<close> and \<^verbatim>\<open>JSON.stringify\<close> both follow this order.
\<close>

definition is_array_index :: "string \<Rightarrow> bool" where
  "is_array_index k =
     (k \<noteq> [] \<and> list_all is_digit k \<and> (k = ''0'' \<or> hd k \<noteq> CHR ''0'')
      \<and> nat_of_string k < 4294967295)"

definition own_property_order :: "(string \<times> 'a) list \<Rightarrow> (string \<times> 'a) list" where
  "own_property_order ps =
     sort_key (\<lambda>p. nat_of_string (fst p)) (filter (\<lambda>p. is_array_index (fst p)) ps)
     @ filter (\<lambda>p. \<not> is_array_index (fst p)) ps"

text \<open>The elements of an array, or the code units of a string, under their indices.\<close>

definition indexed :: "'a list \<Rightarrow> (string \<times> 'a) list" where
  "indexed xs = zip (map string_of_nat [0..<length xs]) xs"

text \<open>
  \<^verbatim>\<open>Object.entries(v)\<close>: \<^verbatim>\<open>ToObject\<close> throws on \<^verbatim>\<open>undefined\<close> and \<^verbatim>\<open>null\<close>; the
  wrapper of a boolean or a number has no own enumerable property; a string's are its
  code units and an array's its elements (\<^verbatim>\<open>length\<close> is not enumerable).
\<close>

fun Object_entries :: "jsval \<Rightarrow> js_error + (string \<times> jsval) list" where
  "Object_entries JUndefined = Inl TypeError"
| "Object_entries JNull = Inl TypeError"
| "Object_entries (JBool b) = Inr []"
| "Object_entries (JNum n) = Inr []"
| "Object_entries (JStr s) = Inr (indexed (map (\<lambda>c. JStr [c]) s))"
| "Object_entries (JArr xs) = Inr (indexed xs)"
| "Object_entries (JObj ps) = Inr (own_property_order ps)"

text \<open>
  \<^verbatim>\<open>Object.prototype.hasOwnProperty.call(v, k)\<close>: also \<^verbatim>\<open>ToObject\<close> first; the own
  properties of a string or an array include \<^verbatim>\<open>length\<close>.
\<close>

fun hasOwnProperty :: "jsval \<Rightarrow> string \<Rightarrow> js_error + bool" where
  "hasOwnProperty JUndefined k = Inl TypeError"
| "hasOwnProperty JNull k = Inl TypeError"
| "hasOwnProperty (JBool b) k = Inr False"
| "hasOwnProperty (JNum n) k = Inr False"
| "hasOwnProperty (JStr s) k = Inr (k = ''length'' \<or> k \<in> set (map string_of_nat [0..<length s]))"
| "hasOwnProperty (JArr xs) k = Inr (k = ''length'' \<or> k \<in> set (map string_of_nat [0..<length xs]))"
| "hasOwnProperty (JObj ps) k = Inr (k \<in> set (map fst ps))"

text \<open>
  \<^verbatim>\<open>v.defaultMessage\<close>: throws on \<^verbatim>\<open>undefined\<close> and \<^verbatim>\<open>null\<close>. Otherwise it is the
  own property of that name if \<open>v\<close> is an object that has one, and \<^verbatim>\<open>undefined\<close> if
  not: no prototype of a JSON value has a property \<^verbatim>\<open>defaultMessage\<close>.
\<close>

fun get_defaultMessage :: "jsval \<Rightarrow> js_error + jsval" where
  "get_defaultMessage JUndefined = Inl TypeError"
| "get_defaultMessage JNull = Inl TypeError"
| "get_defaultMessage (JObj members) =
     Inr (case map_of members ''defaultMessage'' of None \<Rightarrow> JUndefined | Some m \<Rightarrow> m)"
| "get_defaultMessage v = Inr JUndefined"

text \<open>
  \<^verbatim>\<open>acc[k] = v\<close> on a plain object \<open>acc\<close>, for an object \<open>v\<close>. An own property \<open>k\<close>
  keeps its place and takes the value; a new one is created last. The name
  \<^verbatim>\<open>__proto__\<close> is the exception: the assignment finds the setter that
  \<^verbatim>\<open>Object.prototype\<close> has under this name, which replaces the prototype of \<open>acc\<close> by
  \<open>v\<close> and creates no own property.
\<close>

definition property_assign :: "(string \<times> jsval) list \<Rightarrow> string \<Rightarrow> jsval \<Rightarrow> (string \<times> jsval) list" where
  "property_assign acc k v = (if k = ''__proto__'' then acc else AList.update k v acc)"

section \<open>The state of the component\<close>

text \<open>
  \<^verbatim>\<open>interface TranslationEntry { id: string; key: string; defaultMessage: string }\<close>.
  \<open>id\<close> and \<open>key\<close> only ever hold property names and the text of an input field;
  \<open>defaultMessage\<close> holds what the import found, a string when the file has the shape
  of \<^verbatim>\<open>TranslationData\<close>.
\<close>

record TranslationEntry =
  entry_id :: string
  key :: string
  defaultMessage :: jsval

text \<open>The \<^verbatim>\<open>useState\<close> cells of \<^verbatim>\<open>TranslationEditor\<close>, with their initial values.\<close>

record state =
  translationEntries :: "TranslationEntry list"
  originalData :: jsval
  showFloatingDownload :: bool
  fileName :: string
  isDownloadModalOpen :: bool
  downloadFileName :: string

definition initial_state :: state where
  "initial_state =
     \<lparr>translationEntries = [], originalData = JObj [], showFloatingDownload = False,
      fileName = [], isDownloadModalOpen = False, downloadFileName = []\<rparr>"

text \<open>
  The types the TypeScript declares, as predicates: every \<open>defaultMessage\<close> of the list
  is a string, and \<open>originalData\<close> is an object whose properties are objects with a
  string under \<^verbatim>\<open>defaultMessage\<close>. The property names of an object are distinct.
\<close>

fun is_string :: "jsval \<Rightarrow> bool" where
  "is_string (JStr s) = True"
| "is_string v = False"

definition has_string_message :: "jsval \<Rightarrow> bool" where
  "has_string_message v =
     (case v of JObj members \<Rightarrow>
        (case map_of members ''defaultMessage'' of Some m \<Rightarrow> is_string m | None \<Rightarrow> False)
      | _ \<Rightarrow> False)"

definition is_TranslationData :: "jsval \<Rightarrow> bool" where
  "is_TranslationData v =
     (case v of JObj ps \<Rightarrow> distinct (map fst ps) \<and> list_all (\<lambda>p. has_string_message (snd p)) ps
      | _ \<Rightarrow> False)"

definition typed_entries :: "TranslationEntry list \<Rightarrow> bool" where
  "typed_entries entries = list_all (\<lambda>entry. is_string (defaultMessage entry)) entries"

definition typed_state :: "state \<Rightarrow> bool" where
  "typed_state st = (typed_entries (translationEntries st) \<and> is_TranslationData (originalData st))"

text \<open>
  What holds of every value that \<^verbatim>\<open>JSON.parse\<close> returns, typed or not: if it is an
  object, its property names are distinct.
\<close>

definition distinct_names :: "jsval \<Rightarrow> bool" where
  "distinct_names v = (case v of JObj ps \<Rightarrow> distinct (map fst ps) | _ \<Rightarrow> True)"

subsection \<open>Exceptions inside \<^verbatim>\<open>map\<close> and \<^verbatim>\<open>filter\<close>\<close>

text \<open>A callback that throws ends the whole traversal with its exception.\<close>

fun mapE :: "('a \<Rightarrow> js_error + 'b) \<Rightarrow> 'a list \<Rightarrow> js_error + 'b list" where
  "mapE f [] = Inr []"
| "mapE f (x # xs) =
     (case f x of Inl err \<Rightarrow> Inl err
      | Inr y \<Rightarrow> (case mapE f xs of Inl err \<Rightarrow> Inl err | Inr ys \<Rightarrow> Inr (y # ys)))"

fun filterE :: "('a \<Rightarrow> js_error + bool) \<Rightarrow> 'a list \<Rightarrow> js_error + 'a list" where
  "filterE f [] = Inr []"
| "filterE f (x # xs) =
     (case f x of Inl err \<Rightarrow> Inl err
      | Inr b \<Rightarrow> (case filterE f xs of Inl err \<Rightarrow> Inl err
                  | Inr ys \<Rightarrow> Inr (if b then x # ys else ys)))"

section \<open>Import: \<^verbatim>\<open>handleFileUpload\<close>\<close>

text \<open>
  The file the user picked: its name, and what \<^verbatim>\<open>JSON.parse\<close> makes of its text, the
  value or the \<^verbatim>\<open>SyntaxError\<close> it throws.
\<close>

record uploaded_file =
  file_name :: string
  file_parse :: "js_error + jsval"

text \<open>
  \<^verbatim>\<open>([key, value]) => ({ id: key, key: key, defaultMessage: value.defaultMessage })\<close>
\<close>

definition entry_of :: "string \<times> jsval \<Rightarrow> js_error + TranslationEntry" where
  "entry_of p =
     (case get_defaultMessage (snd p) of Inl err \<Rightarrow> Inl err
      | Inr m \<Rightarrow> Inr \<lparr>entry_id = fst p, key = fst p, defaultMessage = m\<rparr>)"

definition import_entries :: "jsval \<Rightarrow> js_error + TranslationEntry list" where
  "import_entries jsonData =
     (case Object_entries jsonData of Inl err \<Rightarrow> Inl err | Inr ps \<Rightarrow> mapE entry_of ps)"

definition alert_text :: string where
  "alert_text = ''Error al procesar el archivo JSON''"

text \<open>
  \<^verbatim>\<open>reader.onload\<close>: the body of the \<^verbatim>\<open>try\<close>, and the \<^verbatim>\<open>catch\<close> that reports with
  \<^verbatim>\<open>alert\<close>. The result is the new state and the alerts shown. \<^verbatim>\<open>setOriginalData\<close>
  is called before the entries are built: an exception thrown after it does not take the
  update back.
\<close>

definition reader_onload :: "js_error + jsval \<Rightarrow> state \<Rightarrow> state \<times> string list" where
  "reader_onload parsed st =
     (case parsed of
        Inl err \<Rightarrow> (st, [alert_text])
      | Inr jsonData \<Rightarrow>
          (case import_entries jsonData of
             Inl err \<Rightarrow> (st\<lparr>originalData := jsonData\<rparr>, [alert_text])
           | Inr entries \<Rightarrow>
               (st\<lparr>originalData := jsonData, translationEntries := entries\<rparr>, [])))"

text \<open>
  \<^verbatim>\<open>handleFileUpload\<close>: with no file chosen nothing happens; with one, \<^verbatim>\<open>setFileName\<close>
  runs at once and the reader's \<^verbatim>\<open>onload\<close> follows.
\<close>

definition handleFileUpload :: "uploaded_file option \<Rightarrow> state \<Rightarrow> state \<times> string list" where
  "handleFileUpload file st =
     (case file of
        None \<Rightarrow> (st, [])
      | Some f \<Rightarrow> reader_onload (file_parse f) (st\<lparr>fileName := file_name f\<rparr>))"

section \<open>The table: edits and derived predicates\<close>

definition handlePropertyChange :: "string \<Rightarrow> string \<Rightarrow> state \<Rightarrow> state" where
  "handlePropertyChange i newKey st =
     st\<lparr>translationEntries :=
          map (\<lambda>entry. if entry_id entry = i then entry\<lparr>key := newKey\<rparr> else entry)
            (translationEntries st)\<rparr>"

definition handleTranslationChange :: "string \<Rightarrow> string \<Rightarrow> state \<Rightarrow> state" where
  "handleTranslationChange i newTranslation st =
     st\<lparr>translationEntries :=
          map (\<lambda>entry. if entry_id entry = i then entry\<lparr>defaultMessage := JStr newTranslation\<rparr>
                        else entry)
            (translationEntries st)\<rparr>"

definition handleClearTranslation :: "string \<Rightarrow> state \<Rightarrow> state" where
  "handleClearTranslation i st =
     st\<lparr>translationEntries :=
          map (\<lambda>entry. if entry_id entry = i then entry\<lparr>defaultMessage := JStr []\<rparr> else entry)
            (translationEntries st)\<rparr>"

text \<open>The \<^verbatim>\<open>onClick\<close> of the button that empties the column (``Vaciar columna'').\<close>

definition clearAllOnClick :: "state \<Rightarrow> state" where
  "clearAllOnClick st =
     st\<lparr>translationEntries :=
          map (\<lambda>entry. if truthy (defaultMessage entry) then entry\<lparr>defaultMessage := JStr []\<rparr>
                        else entry)
            (translationEntries st)\<rparr>"

text \<open>
  \<^verbatim>\<open>originalData[k]?.defaultMessage\<close>. The read \<^verbatim>\<open>originalData[k]\<close> throws when
  \<open>originalData\<close> is \<^verbatim>\<open>undefined\<close> or \<^verbatim>\<open>null\<close>. When \<open>k\<close> is no own enumerable
  property, the read gives \<^verbatim>\<open>undefined\<close>, the \<^verbatim>\<open>length\<close> of a string or an array, or
  what a prototype has under \<open>k\<close>: none of them has a \<^verbatim>\<open>defaultMessage\<close>.
\<close>

definition snapshot_defaultMessage :: "jsval \<Rightarrow> string \<Rightarrow> js_error + jsval" where
  "snapshot_defaultMessage data k =
     (case Object_entries data of
        Inl err \<Rightarrow> Inl err
      | Inr ps \<Rightarrow>
          (case map_of ps k of
             None \<Rightarrow> Inr JUndefined
           | Some v \<Rightarrow> (if v = JUndefined \<or> v = JNull then Inr JUndefined else get_defaultMessage v)))"

text \<open>
  \<^verbatim>\<open>isModified\<close>: \<^verbatim>\<open>a !== b || !hasOwnProperty\<close>, the second operand read only when
  the first is false. \<^verbatim>\<open>!==\<close> is inequality of values for strings and the other
  primitive values, and so it is here. Two objects it compares by identity, which the
  values of the model do not carry: where both operands are objects or arrays (a message
  that is no string, against the declared type) the model answers for the case that they
  are one object, as a message of the snapshot and the entry imported from it are.
\<close>

definition isModified :: "state \<Rightarrow> TranslationEntry \<Rightarrow> js_error + bool" where
  "isModified st entry =
     (case snapshot_defaultMessage (originalData st) (entry_id entry) of
        Inl err \<Rightarrow> Inl err
      | Inr m \<Rightarrow>
          (if m \<noteq> defaultMessage entry then Inr True
           else (case hasOwnProperty (originalData st) (entry_id entry) of
                   Inl err \<Rightarrow> Inl err
                 | Inr own \<Rightarrow> Inr (\<not> own))))"

definition isNewTranslation :: "state \<Rightarrow> TranslationEntry \<Rightarrow> js_error + bool" where
  "isNewTranslation st entry =
     (case hasOwnProperty (originalData st) (entry_id entry) of
        Inl err \<Rightarrow> Inl err
      | Inr own \<Rightarrow> Inr (\<not> own))"


text \<open>\<^verbatim>\<open>addNewTranslation\<close>; \<open>now\<close> is what \<^verbatim>\<open>Date.now()\<close> returns, in milliseconds.\<close>

definition addNewTranslation :: "nat \<Rightarrow> state \<Rightarrow> state" where
  "addNewTranslation now st =
     st\<lparr>translationEntries :=
          translationEntries st
          @ [\<lparr>entry_id = string_of_nat now, key = [], defaultMessage = JStr []\<rparr>]\<rparr>"

section \<open>Export: \<^verbatim>\<open>handleDownloadClick\<close> and \<^verbatim>\<open>downloadJSON\<close>\<close>

text \<open>\<^verbatim>\<open>fileName.replace('.json', '') || 'translations'\<close>: the empty string is falsy.\<close>

definition default_download_name :: "string \<Rightarrow> string" where
  "default_download_name name =
     (if remove_first ''.json'' name = [] then ''translations'' else remove_first ''.json'' name)"

definition handleDownloadClick :: "state \<Rightarrow> state" where
  "handleDownloadClick st =
     st\<lparr>downloadFileName := default_download_name (fileName st), isDownloadModalOpen := True\<rparr>"

text \<open>
  The predicate of \<^verbatim>\<open>validEntries\<close>:
  \<^verbatim>\<open>!isNewTranslation(entry) || (entry.key.trim() !== '' && entry.defaultMessage.trim() !== '')\<close>
\<close>

definition validEntry :: "state \<Rightarrow> TranslationEntry \<Rightarrow> js_error + bool" where
  "validEntry st entry =
     (case isNewTranslation st entry of
        Inl err \<Rightarrow> Inl err
      | Inr new \<Rightarrow>
          (if \<not> new then Inr True
           else if trim (key entry) = [] then Inr False
           else (case trim_of (defaultMessage entry) of
                   Inl err \<Rightarrow> Inl err
                 | Inr t \<Rightarrow> Inr (t \<noteq> []))))"

text \<open>
  \<^verbatim>\<open>validEntries.reduce((acc, entry) => { acc[entry.key] = { defaultMessage: entry.defaultMessage }; return acc }, {})\<close>
\<close>

definition translationsObject :: "TranslationEntry list \<Rightarrow> (string \<times> jsval) list" where
  "translationsObject validEntries =
     foldl (\<lambda>acc entry.
              property_assign acc (key entry) (JObj [(''defaultMessage'', defaultMessage entry)]))
       [] validEntries"

definition finalFileName :: "string \<Rightarrow> string" where
  "finalFileName chosen = strip_json_suffix chosen @ ''.json''"

text \<open>
  What the browser is given to save: the name, and the object whose text
  \<^verbatim>\<open>JSON.stringify(translationsObject, null, 2)\<close> is the content.
\<close>

record download =
  download_name :: string
  download_object :: "(string \<times> jsval) list"

text \<open>
  \<^verbatim>\<open>downloadJSON\<close>: the new state, and the download or the exception that ended the
  handler before any \<^verbatim>\<open>set...\<close> call.
\<close>

definition downloadJSON :: "state \<Rightarrow> state \<times> (js_error + download)" where
  "downloadJSON st =
     (case filterE (validEntry st) (translationEntries st) of
        Inl err \<Rightarrow> (st, Inl err)
      | Inr validEntries \<Rightarrow>
          (st\<lparr>isDownloadModalOpen := False\<rparr>,
           Inr \<lparr>download_name = finalFileName (downloadFileName st),
                download_object = translationsObject validEntries\<rparr>))"


section \<open>Rendering the rows\<close>




section \<open>Scenarios\<close>

text \<open>Concrete documents and files on which the properties below are exercised.\<close>

definition row_a :: TranslationEntry where
  "row_a = \<lparr>entry_id = ''a'', key = ''a'', defaultMessage = JStr ''x''\<rparr>"

definition row_b :: TranslationEntry where
  "row_b = \<lparr>entry_id = ''b'', key = ''b'', defaultMessage = JStr []\<rparr>"

definition two_rows :: state where
  "two_rows =
     initial_state\<lparr>translationEntries := [row_a, row_b],
       originalData := JObj [(''a'', JObj [(''defaultMessage'', JStr ''x'')]),
                             (''b'', JObj [(''defaultMessage'', JStr ''y'')])]\<rparr>"

definition greeting_data :: jsval where
  "greeting_data = JObj [(''greeting'', JObj [(''defaultMessage'', JStr ''Hello'')])]"

definition greeting_file :: uploaded_file where
  "greeting_file = \<lparr>file_name = ''en.json'', file_parse = Inr greeting_data\<rparr>"




definition greeting_row :: TranslationEntry where
  "greeting_row = \<lparr>entry_id = ''greeting'', key = ''greeting'', defaultMessage = JStr ''Hello''\<rparr>"

definition greeting_loaded :: state where
  "greeting_loaded =
     initial_state\<lparr>fileName := ''en.json'', originalData := greeting_data,
       translationEntries := [greeting_row]\<rparr>"



definition proto_state :: state where
  "proto_state =
     handleTranslationChange ''1700000000000'' ''x''
       (handlePropertyChange ''1700000000000'' ''__proto__''
          (addNewTranslation 1700000000000 greeting_loaded))"

section \<open>Auxiliary facts\<close>

subsection \<open>Traversals that may throw\<close>


lemma filterE_Inr_if_pointwise:
  "(\<And>x. x \<in> set xs \<Longrightarrow> \<exists>b. f x = Inr b) \<Longrightarrow> \<exists>ys. filterE f xs = Inr ys"
proof (induction xs)
  case Nil
  then show ?case by simp
next
  case (Cons x xs)
  then obtain b where "f x = Inr b" by auto
  moreover from Cons obtain ys where "filterE f xs = Inr ys" by auto
  ultimately show ?case by simp
qed

lemma mapE_total:
  "(\<And>x. x \<in> set xs \<Longrightarrow> f x = Inr (g x)) \<Longrightarrow> mapE f xs = Inr (map g xs)"
  by (induction xs) simp_all

lemma mapE_Inr_nth:
  "mapE f xs = Inr ys \<Longrightarrow> length ys = length xs \<and> (\<forall>n < length xs. f (xs ! n) = Inr (ys ! n))"
proof (induction xs arbitrary: ys)
  case Nil
  then show ?case by simp
next
  case (Cons x xs)
  then obtain y ys' where fx: "f x = Inr y" and rest: "mapE f xs = Inr ys'" and ys: "ys = y # ys'"
    by (auto split: sum.splits)
  from Cons.IH [OF rest] fx ys show ?case
    by (auto simp: nth_Cons split: nat.splits)
qed


subsection \<open>Numbers as property names\<close>

lemma digit_value_digit_char: "d < 10 \<Longrightarrow> digit_value (digit_char d) = d"
proof -
  assume "d < 10"
  then have "d \<in> {0, 1, 2, 3, 4, 5, 6, 7, 8, 9}" by auto
  then show ?thesis
    by (auto simp: digit_value_def digit_char_def)
qed

lemma nat_of_string_snoc: "nat_of_string (s @ [c]) = 10 * nat_of_string s + digit_value c"
  by (simp add: nat_of_string_def)

lemma nat_of_string_of_nat: "nat_of_string (string_of_nat n) = n"
proof (induction n rule: string_of_nat.induct)
  case (1 n)
  show ?case
  proof (cases "n < 10")
    case True
    then show ?thesis
      by (subst string_of_nat.simps) (simp add: nat_of_string_def digit_value_digit_char)
  next
    case False
    with 1 have "nat_of_string (string_of_nat (n div 10)) = n div 10" by simp
    with False show ?thesis
      by (subst string_of_nat.simps) (simp add: nat_of_string_snoc digit_value_digit_char)
  qed
qed

lemma inj_string_of_nat: "inj string_of_nat"
  by (rule inj_on_inverseI [where g = nat_of_string]) (rule nat_of_string_of_nat)

lemma map_fst_indexed: "map fst (indexed xs) = map string_of_nat [0..<length xs]"
  by (simp add: indexed_def)

lemma distinct_indexed: "distinct (map fst (indexed xs))"
  by (simp add: map_fst_indexed distinct_map inj_on_subset [OF inj_string_of_nat])

subsection \<open>The enumeration order of an object\<close>

lemma set_own_property_order: "set (own_property_order ps) = set ps"
  by (auto simp: own_property_order_def)

lemma distinct_own_property_order:
  assumes "distinct (map fst ps)"
  shows "distinct (map fst (own_property_order ps))"
proof -
  from assms have d: "distinct ps" and i: "inj_on fst (set ps)"
    by (simp_all add: distinct_map)
  have "distinct (own_property_order ps)"
    using d by (auto simp: own_property_order_def)
  with i show ?thesis
    by (simp add: distinct_map set_own_property_order)
qed


subsection \<open>Typed states: the predicates of the export do not throw\<close>

lemma hasOwnProperty_TranslationData:
  "is_TranslationData data \<Longrightarrow> \<exists>own. hasOwnProperty data k = Inr own"
  by (cases data) (simp_all add: is_TranslationData_def)

lemma validEntry_typed:
  assumes "is_TranslationData (originalData st)" and "is_string (defaultMessage entry)"
  shows "\<exists>b. validEntry st entry = Inr b"
proof -
  from assms(1) obtain own where "hasOwnProperty (originalData st) (entry_id entry) = Inr own"
    using hasOwnProperty_TranslationData by blast
  moreover from assms(2) obtain s where "defaultMessage entry = JStr s"
    by (cases "defaultMessage entry") simp_all
  ultimately show ?thesis
    by (auto simp: validEntry_def isNewTranslation_def)
qed

lemma downloadJSON_typed:
  assumes "typed_state st"
  shows "\<exists>d. snd (downloadJSON st) = Inr d"
proof -
  have "\<exists>ys. filterE (validEntry st) (translationEntries st) = Inr ys"
  proof (rule filterE_Inr_if_pointwise)
    fix x assume "x \<in> set (translationEntries st)"
    with assms have "is_string (defaultMessage x)" "is_TranslationData (originalData st)"
      by (auto simp: typed_state_def typed_entries_def list_all_iff)
    then show "\<exists>b. validEntry st x = Inr b" using validEntry_typed by blast
  qed
  then show ?thesis by (auto simp: downloadJSON_def)
qed

lemmas eval_defs = downloadJSON_def validEntry_def isNewTranslation_def translationsObject_def
  property_assign_def finalFileName_def strip_json_suffix_def trim_def whitespace_def
  initial_state_def is_TranslationData_def has_string_message_def typed_state_def
  typed_entries_def

section \<open>The table\<close>

text \<open>
  C10. For every entry list and every id that is not the id of any entry in the list,
  \<open>setKey\<close> (\<open>handlePropertyChange\<close>), \<open>setValue\<close> (\<open>handleTranslationChange\<close>) and
  \<open>clearValue\<close> (\<open>handleClearTranslation\<close>) each return the list, and with it the whole
  state, unchanged: an unknown id is a silent no-op, never an error.
\<close>

theorem unknown_id_is_noop:
  assumes "i \<notin> set (map entry_id (translationEntries st))"
  shows "handlePropertyChange i newKey st = st
       \<and> handleTranslationChange i newTranslation st = st
       \<and> handleClearTranslation i st = st"
proof -
  have same: "map (\<lambda>entry. if entry_id entry = i then g entry else entry) (translationEntries st)
              = translationEntries st" for g :: "TranslationEntry \<Rightarrow> TranslationEntry"
    using assms by (intro map_idI) auto
  show ?thesis
    by (simp add: handlePropertyChange_def handleTranslationChange_def
        handleClearTranslation_def same)
qed

theorem unknown_id_is_noop_witness:
  "''zz'' \<notin> set (map entry_id (translationEntries two_rows))
   \<and> handlePropertyChange ''zz'' ''k'' two_rows = two_rows
   \<and> handleTranslationChange ''zz'' ''v'' two_rows = two_rows
   \<and> handleClearTranslation ''zz'' two_rows = two_rows"
proof -
  have h: "''zz'' \<notin> set (map entry_id (translationEntries two_rows))"
    by (simp add: two_rows_def row_a_def row_b_def)
  show ?thesis
    using h unknown_id_is_noop [OF h, of "''k''" "''v''"] by simp
qed

text \<open>
  C7. Emptying the column sets the value of every row whose value is a non-empty string
  to the empty string and leaves a row whose value is already empty as it is; applying it
  twice gives the same state as applying it once.
\<close>

theorem clearAll_idempotent:
  "clearAllOnClick (clearAllOnClick st) = clearAllOnClick st
   \<and> length (translationEntries (clearAllOnClick st)) = length (translationEntries st)
   \<and> (\<forall>n < length (translationEntries st).
         (defaultMessage (translationEntries st ! n) = JStr []
            \<longrightarrow> translationEntries (clearAllOnClick st) ! n = translationEntries st ! n)
       \<and> (\<forall>s. defaultMessage (translationEntries st ! n) = JStr s \<and> s \<noteq> []
            \<longrightarrow> translationEntries (clearAllOnClick st) ! n
                = (translationEntries st ! n)\<lparr>defaultMessage := JStr []\<rparr>))"
proof -
  have idem: "clearAllOnClick (clearAllOnClick st) = clearAllOnClick st"
    by (simp add: clearAllOnClick_def comp_def)
  have len: "length (translationEntries (clearAllOnClick st)) = length (translationEntries st)"
    by (simp add: clearAllOnClick_def)
  have rows: "\<forall>n < length (translationEntries st).
         (defaultMessage (translationEntries st ! n) = JStr []
            \<longrightarrow> translationEntries (clearAllOnClick st) ! n = translationEntries st ! n)
       \<and> (\<forall>s. defaultMessage (translationEntries st ! n) = JStr s \<and> s \<noteq> []
            \<longrightarrow> translationEntries (clearAllOnClick st) ! n
                = (translationEntries st ! n)\<lparr>defaultMessage := JStr []\<rparr>)"
    by (simp add: clearAllOnClick_def)
  from idem len rows show ?thesis by blast
qed

theorem clearAll_idempotent_witness:
  "clearAllOnClick (clearAllOnClick two_rows) = clearAllOnClick two_rows
   \<and> translationEntries (clearAllOnClick two_rows)
       = [row_a\<lparr>defaultMessage := JStr []\<rparr>, row_b]"
proof -
  have "translationEntries (clearAllOnClick two_rows)
        = [row_a\<lparr>defaultMessage := JStr []\<rparr>, row_b]"
    by (simp add: clearAllOnClick_def two_rows_def row_a_def row_b_def)
  then show ?thesis using clearAll_idempotent [of two_rows] by simp
qed

section \<open>Export\<close>

text \<open>
  C9. For every state, an export leaves the entry list, the original snapshot and the
  loaded file name unchanged (and the other cells but one): the only change is that the
  file name dialog is closed, which happens whenever the export produces its file; on a
  state of the declared types it always does.
\<close>

theorem export_frame:
  "translationEntries (fst (downloadJSON st)) = translationEntries st
   \<and> originalData (fst (downloadJSON st)) = originalData st
   \<and> fileName (fst (downloadJSON st)) = fileName st
   \<and> showFloatingDownload (fst (downloadJSON st)) = showFloatingDownload st
   \<and> downloadFileName (fst (downloadJSON st)) = downloadFileName st
   \<and> (\<forall>d. snd (downloadJSON st) = Inr d
         \<longrightarrow> fst (downloadJSON st) = st\<lparr>isDownloadModalOpen := False\<rparr>)
   \<and> (typed_state st \<longrightarrow> (\<exists>d. snd (downloadJSON st) = Inr d))"
proof -
  have frame: "fst (downloadJSON st) = st
               \<or> fst (downloadJSON st) = st\<lparr>isDownloadModalOpen := False\<rparr>"
    by (simp add: downloadJSON_def split: sum.splits)
  have closes: "\<forall>d. snd (downloadJSON st) = Inr d
         \<longrightarrow> fst (downloadJSON st) = st\<lparr>isDownloadModalOpen := False\<rparr>"
    by (simp add: downloadJSON_def split: sum.splits)
  from frame have "translationEntries (fst (downloadJSON st)) = translationEntries st"
    and "originalData (fst (downloadJSON st)) = originalData st"
    and "fileName (fst (downloadJSON st)) = fileName st"
    and "showFloatingDownload (fst (downloadJSON st)) = showFloatingDownload st"
    and "downloadFileName (fst (downloadJSON st)) = downloadFileName st"
    by auto
  with closes downloadJSON_typed show ?thesis by blast
qed

theorem export_frame_witness:
  "typed_state (handleDownloadClick two_rows)
   \<and> isDownloadModalOpen (handleDownloadClick two_rows)
   \<and> fst (downloadJSON (handleDownloadClick two_rows))
       = (handleDownloadClick two_rows)\<lparr>isDownloadModalOpen := False\<rparr>
   \<and> snd (downloadJSON (handleDownloadClick two_rows))
       = Inr \<lparr>download_name = ''translations.json'',
              download_object = [(''a'', JObj [(''defaultMessage'', JStr ''x'')]),
                                 (''b'', JObj [(''defaultMessage'', JStr [])])]\<rparr>"
proof -
  have typed: "typed_state (handleDownloadClick two_rows)"
    by (simp add: handleDownloadClick_def two_rows_def row_a_def row_b_def eval_defs)
  have out: "snd (downloadJSON (handleDownloadClick two_rows))
       = Inr \<lparr>download_name = ''translations.json'',
              download_object = [(''a'', JObj [(''defaultMessage'', JStr ''x'')]),
                                 (''b'', JObj [(''defaultMessage'', JStr [])])]\<rparr>"
    by (simp add: handleDownloadClick_def default_download_name_def two_rows_def
        row_a_def row_b_def eval_defs)
  have "isDownloadModalOpen (handleDownloadClick two_rows)"
    by (simp add: handleDownloadClick_def)
  with typed out export_frame [of "handleDownloadClick two_rows"] show ?thesis by simp
qed

section \<open>Import\<close>

lemma has_string_message_get:
  "has_string_message v \<Longrightarrow> \<exists>s. get_defaultMessage v = Inr (JStr s)"
proof (cases v)
  case (JObj members)
  assume "has_string_message v"
  with JObj obtain m where m: "map_of members ''defaultMessage'' = Some m" and "is_string m"
    by (auto simp: has_string_message_def split: option.splits)
  then obtain s where "m = JStr s" by (cases m) simp_all
  with JObj m show ?thesis by simp
qed (simp_all add: has_string_message_def)

lemma import_entries_TranslationData:
  assumes "is_TranslationData jsonData"
  shows "\<exists>ps. Object_entries jsonData = Inr ps
     \<and> import_entries jsonData
        = Inr (map (\<lambda>p. \<lparr>entry_id = fst p, key = fst p,
                           defaultMessage = projr (get_defaultMessage (snd p))\<rparr>) ps)
     \<and> (\<forall>p \<in> set ps. \<exists>s. get_defaultMessage (snd p) = Inr (JStr s))"
proof -
  from assms obtain ps0 where obj: "jsonData = JObj ps0"
    and msgs: "list_all (\<lambda>p. has_string_message (snd p)) ps0"
    by (cases jsonData) (simp_all add: is_TranslationData_def)
  let ?ps = "own_property_order ps0"
  have each: "\<exists>s. get_defaultMessage (snd p) = Inr (JStr s)" if "p \<in> set ?ps" for p
    using that msgs has_string_message_get
    by (auto simp: set_own_property_order list_all_iff)
  have "mapE entry_of ?ps
        = Inr (map (\<lambda>p. \<lparr>entry_id = fst p, key = fst p,
                           defaultMessage = projr (get_defaultMessage (snd p))\<rparr>) ?ps)"
  proof (rule mapE_total)
    fix p assume "p \<in> set ?ps"
    from each [OF this] show "entry_of p = Inr \<lparr>entry_id = fst p, key = fst p,
                           defaultMessage = projr (get_defaultMessage (snd p))\<rparr>"
      by (auto simp: entry_of_def)
  qed
  with obj each show ?thesis by (simp add: import_entries_def)
qed

text \<open>
  C2. For every file content that is valid JSON of the shape
  \<^verbatim>\<open>{ [key: string]: { defaultMessage: string } }\<close>, the import raises no error and
  produces an entry list in the enumeration order of the source object, where each
  entry's id and key are the property name and its value is that property's
  \<^verbatim>\<open>defaultMessage\<close>; it replaces the original snapshot by the parsed object (and the
  displayed file name by the file's).
\<close>

theorem import_valid_file:
  assumes "is_TranslationData jsonData"
  shows "\<exists>ps entries.
           Object_entries jsonData = Inr ps
         \<and> handleFileUpload (Some \<lparr>file_name = name, file_parse = Inr jsonData\<rparr>) st
             = (st\<lparr>fileName := name, originalData := jsonData, translationEntries := entries\<rparr>, [])
         \<and> length entries = length ps
         \<and> (\<forall>n < length ps.
               entry_id (entries ! n) = fst (ps ! n)
             \<and> key (entries ! n) = fst (ps ! n)
             \<and> get_defaultMessage (snd (ps ! n)) = Inr (defaultMessage (entries ! n))
             \<and> is_string (defaultMessage (entries ! n)))"
proof -
  from import_entries_TranslationData [OF assms] obtain ps where
    ps: "Object_entries jsonData = Inr ps"
    and imp: "import_entries jsonData
        = Inr (map (\<lambda>p. \<lparr>entry_id = fst p, key = fst p,
                           defaultMessage = projr (get_defaultMessage (snd p))\<rparr>) ps)"
    and msgs: "\<forall>p \<in> set ps. \<exists>s. get_defaultMessage (snd p) = Inr (JStr s)"
    by blast
  let ?entries = "map (\<lambda>p. \<lparr>entry_id = fst p, key = fst p,
                           defaultMessage = projr (get_defaultMessage (snd p))\<rparr>) ps"
  have up: "handleFileUpload (Some \<lparr>file_name = name, file_parse = Inr jsonData\<rparr>) st
             = (st\<lparr>fileName := name, originalData := jsonData, translationEntries := ?entries\<rparr>, [])"
    by (simp add: handleFileUpload_def reader_onload_def imp)
  have rows: "\<forall>n < length ps.
               entry_id (?entries ! n) = fst (ps ! n)
             \<and> key (?entries ! n) = fst (ps ! n)
             \<and> get_defaultMessage (snd (ps ! n)) = Inr (defaultMessage (?entries ! n))
             \<and> is_string (defaultMessage (?entries ! n))"
  proof (intro allI impI)
    fix n assume n: "n < length ps"
    then have "ps ! n \<in> set ps" by simp
    with msgs obtain s where "get_defaultMessage (snd (ps ! n)) = Inr (JStr s)" by blast
    with n show "entry_id (?entries ! n) = fst (ps ! n)
             \<and> key (?entries ! n) = fst (ps ! n)
             \<and> get_defaultMessage (snd (ps ! n)) = Inr (defaultMessage (?entries ! n))
             \<and> is_string (defaultMessage (?entries ! n))"
      by simp
  qed
  have "length ?entries = length ps" by simp
  with ps up rows show ?thesis by blast
qed

lemmas import_defs = handleFileUpload_def reader_onload_def import_entries_def entry_of_def
  own_property_order_def is_array_index_def is_digit_def nat_of_string_def digit_value_def
  alert_text_def

theorem import_valid_file_witness:
  "is_TranslationData greeting_data
   \<and> Object_entries greeting_data = Inr [(''greeting'', JObj [(''defaultMessage'', JStr ''Hello'')])]
   \<and> handleFileUpload (Some greeting_file) two_rows
      = (two_rows\<lparr>fileName := ''en.json'', originalData := greeting_data,
           translationEntries :=
             [\<lparr>entry_id = ''greeting'', key = ''greeting'', defaultMessage = JStr ''Hello''\<rparr>]\<rparr>, [])"
proof -
  have shape: "is_TranslationData greeting_data"
    by (simp add: greeting_data_def eval_defs)
  have order: "Object_entries greeting_data
               = Inr [(''greeting'', JObj [(''defaultMessage'', JStr ''Hello'')])]"
    by (simp add: greeting_data_def import_defs)
  from import_valid_file [OF shape, of "''en.json''" two_rows] order
  obtain entries where
    up: "handleFileUpload (Some \<lparr>file_name = ''en.json'', file_parse = Inr greeting_data\<rparr>) two_rows
         = (two_rows\<lparr>fileName := ''en.json'', originalData := greeting_data,
              translationEntries := entries\<rparr>, [])"
    and len: "length entries = 1"
    and row: "entry_id (entries ! 0) = ''greeting''" "key (entries ! 0) = ''greeting''"
      "defaultMessage (entries ! 0) = JStr ''Hello''"
    by (auto simp: greeting_data_def)
  from len obtain e where "entries = [e]"
    by (cases entries) simp_all
  with row have "entries = [\<lparr>entry_id = ''greeting'', key = ''greeting'',
                              defaultMessage = JStr ''Hello''\<rparr>]"
    by simp
  with up shape order show ?thesis by (simp add: greeting_file_def)
qed











subsection \<open>\<open>isModified\<close>\<close>

lemma Object_entries_distinct:
  assumes "distinct_names v" and "Object_entries v = Inr ps"
  shows "distinct (map fst ps)"
  using assms
  by (cases v) (auto simp: distinct_names_def distinct_indexed distinct_own_property_order)

lemma Object_entries_hasOwnProperty:
  assumes "Object_entries v = Inr ps" and "p \<in> set ps"
  shows "hasOwnProperty v (fst p) = Inr True"
proof (cases v)
  case (JStr s)
  with assms have "fst p \<in> set (map fst (indexed (map (\<lambda>c. JStr [c]) s)))" by auto
  then show ?thesis using JStr by (simp add: map_fst_indexed)
next
  case (JArr xs)
  with assms have "fst p \<in> set (map fst (indexed xs))" by auto
  then show ?thesis using JArr by (simp add: map_fst_indexed)
next
  case (JObj ps0)
  with assms have "p \<in> set ps0" using set_own_property_order [of ps0] by auto
  then show ?thesis using JObj by simp
qed (use assms in simp_all)

lemma isModified_imported_row:
  assumes names: "distinct_names v"
    and ps: "Object_entries v = Inr ps"
    and p: "p \<in> set ps"
    and row: "entry_of p = Inr entry"
    and data: "originalData st = v"
  shows "isModified st entry = Inr False"
proof -
  from row obtain m where m: "get_defaultMessage (snd p) = Inr m"
    and entry: "entry = \<lparr>entry_id = fst p, key = fst p, defaultMessage = m\<rparr>"
    by (auto simp: entry_of_def split: sum.splits)
  from m have present: "snd p \<noteq> JUndefined" "snd p \<noteq> JNull" by auto
  from Object_entries_distinct [OF names ps] p have "map_of ps (fst p) = Some (snd p)"
    by (cases p) simp
  with ps present m have "snapshot_defaultMessage v (fst p) = Inr m"
    by (simp add: snapshot_defaultMessage_def)
  moreover have "hasOwnProperty v (fst p) = Inr True"
    using Object_entries_hasOwnProperty [OF ps p] .
  ultimately show ?thesis
    using entry data by (simp add: isModified_def)
qed

text \<open>
  C4 (as amended). For every entry of the list immediately after an import that raised no
  error, \<open>isModified\<close> is false. It is true immediately after any \<open>setValue\<close> call whose
  new text differs from what the snapshot holds for that entry. A \<open>setKey\<close> call never
  changes \<open>isModified\<close>: it does not look at the key.
\<close>

theorem isModified_tracks_values:
  "(distinct_names jsonData
     \<and> handleFileUpload (Some \<lparr>file_name = name, file_parse = Inr jsonData\<rparr>) st = (st', [])
     \<longrightarrow> (\<forall>entry \<in> set (translationEntries st'). isModified st' entry = Inr False))
   \<and> (entry \<in> set (translationEntries st)
       \<and> snapshot_defaultMessage (originalData st) (entry_id entry) = Inr original
       \<and> original \<noteq> JStr newTranslation
     \<longrightarrow> entry\<lparr>defaultMessage := JStr newTranslation\<rparr>
           \<in> set (translationEntries (handleTranslationChange (entry_id entry) newTranslation st))
         \<and> isModified (handleTranslationChange (entry_id entry) newTranslation st)
             (entry\<lparr>defaultMessage := JStr newTranslation\<rparr>) = Inr True)
   \<and> (entry \<in> set (translationEntries st)
     \<longrightarrow> entry\<lparr>key := newKey\<rparr>
           \<in> set (translationEntries (handlePropertyChange (entry_id entry) newKey st))
         \<and> isModified (handlePropertyChange (entry_id entry) newKey st) (entry\<lparr>key := newKey\<rparr>)
           = isModified st entry)"
proof -
  have imported: "\<forall>entry \<in> set (translationEntries st'). isModified st' entry = Inr False"
    if names: "distinct_names jsonData"
      and up: "handleFileUpload (Some \<lparr>file_name = name, file_parse = Inr jsonData\<rparr>) st = (st', [])"
  proof
    fix entry assume mem: "entry \<in> set (translationEntries st')"
    from up obtain entries where imp: "import_entries jsonData = Inr entries"
      and st': "st' = st\<lparr>fileName := name, originalData := jsonData, translationEntries := entries\<rparr>"
      by (auto simp: handleFileUpload_def reader_onload_def alert_text_def split: sum.splits)
    from imp obtain ps where ps: "Object_entries jsonData = Inr ps"
      and rows: "mapE entry_of ps = Inr entries"
      by (auto simp: import_entries_def split: sum.splits)
    from mem st' obtain n where n: "n < length entries" and e: "entry = entries ! n"
      by (auto simp: in_set_conv_nth)
    from mapE_Inr_nth [OF rows] n e have "n < length ps" and "entry_of (ps ! n) = Inr entry"
      by auto
    then show "isModified st' entry = Inr False"
      using isModified_imported_row [OF names ps, of "ps ! n" entry st'] st' by simp
  qed
  have edited: "entry\<lparr>defaultMessage := JStr newTranslation\<rparr>
           \<in> set (translationEntries (handleTranslationChange (entry_id entry) newTranslation st))
         \<and> isModified (handleTranslationChange (entry_id entry) newTranslation st)
             (entry\<lparr>defaultMessage := JStr newTranslation\<rparr>) = Inr True"
    if "entry \<in> set (translationEntries st)"
      and "snapshot_defaultMessage (originalData st) (entry_id entry) = Inr original"
      and "original \<noteq> JStr newTranslation"
    using that by (force simp: handleTranslationChange_def isModified_def)
  have renamed: "entry\<lparr>key := newKey\<rparr>
           \<in> set (translationEntries (handlePropertyChange (entry_id entry) newKey st))
         \<and> isModified (handlePropertyChange (entry_id entry) newKey st) (entry\<lparr>key := newKey\<rparr>)
           = isModified st entry"
    if "entry \<in> set (translationEntries st)"
  proof
    show "entry\<lparr>key := newKey\<rparr>
           \<in> set (translationEntries (handlePropertyChange (entry_id entry) newKey st))"
      using that by (auto simp: handlePropertyChange_def intro!: image_eqI [where x = entry])
    show "isModified (handlePropertyChange (entry_id entry) newKey st) (entry\<lparr>key := newKey\<rparr>)
           = isModified st entry"
      by (simp add: handlePropertyChange_def isModified_def split: sum.splits)
  qed
  from imported edited renamed show ?thesis by blast
qed

theorem isModified_tracks_values_witness:
  "distinct_names greeting_data
   \<and> handleFileUpload (Some greeting_file) initial_state = (greeting_loaded, [])
   \<and> translationEntries greeting_loaded = [greeting_row]
   \<and> isModified greeting_loaded greeting_row = Inr False
   \<and> snapshot_defaultMessage (originalData greeting_loaded) ''greeting'' = Inr (JStr ''Hello'')
   \<and> isModified (handleTranslationChange ''greeting'' ''Hola'' greeting_loaded)
        (greeting_row\<lparr>defaultMessage := JStr ''Hola''\<rparr>) = Inr True"
proof -
  have names: "distinct_names greeting_data"
    by (simp add: distinct_names_def greeting_data_def)
  have load: "handleFileUpload (Some \<lparr>file_name = ''en.json'', file_parse = Inr greeting_data\<rparr>)
                initial_state = (greeting_loaded, [])"
    by (simp add: greeting_loaded_def greeting_row_def greeting_data_def import_defs)
  have rows: "translationEntries greeting_loaded = [greeting_row]"
    by (simp add: greeting_loaded_def)
  have original: "snapshot_defaultMessage (originalData greeting_loaded) (entry_id greeting_row)
                  = Inr (JStr ''Hello'')"
    by (simp add: greeting_loaded_def greeting_row_def greeting_data_def
        snapshot_defaultMessage_def import_defs)
  have id: "entry_id greeting_row = ''greeting''"
    by (simp add: greeting_row_def)
  from isModified_tracks_values
         [of greeting_data "''en.json''" initial_state greeting_loaded]
       names load rows
  have fresh: "isModified greeting_loaded greeting_row = Inr False"
    by simp
  from isModified_tracks_values
         [of _ _ greeting_loaded _ greeting_row "JStr ''Hello''" "''Hola''"]
       rows original id
  have edited: "isModified (handleTranslationChange ''greeting'' ''Hola'' greeting_loaded)
        (greeting_row\<lparr>defaultMessage := JStr ''Hola''\<rparr>) = Inr True"
    by simp
  from names load rows fresh original edited id show ?thesis
    by (simp add: greeting_file_def)
qed

text \<open>
  The claim as stated fails for \<open>setKey\<close>: the key of a loaded entry is changed, and
  \<open>isModified\<close> is still false.
\<close>

theorem setKey_unmodified_counterexample:
  "handleFileUpload (Some greeting_file) initial_state = (greeting_loaded, [])
   \<and> translationEntries greeting_loaded
       = [\<lparr>entry_id = ''greeting'', key = ''greeting'', defaultMessage = JStr ''Hello''\<rparr>]
   \<and> translationEntries (handlePropertyChange ''greeting'' ''salutation'' greeting_loaded)
       = [\<lparr>entry_id = ''greeting'', key = ''salutation'', defaultMessage = JStr ''Hello''\<rparr>]
   \<and> isModified (handlePropertyChange ''greeting'' ''salutation'' greeting_loaded)
        \<lparr>entry_id = ''greeting'', key = ''salutation'', defaultMessage = JStr ''Hello''\<rparr>
       = Inr False"
  by (simp add: greeting_file_def greeting_loaded_def greeting_row_def greeting_data_def
      handlePropertyChange_def isModified_def snapshot_defaultMessage_def import_defs)

section \<open>File names\<close>









section \<open>New rows and the exported object\<close>

lemma string_of_nat_now: "string_of_nat 1700000000000 = ''1700000000000''"
  by (simp add: string_of_nat.simps digit_char_def)


lemma proto_state_eq:
  "proto_state =
     greeting_loaded\<lparr>translationEntries :=
         [greeting_row,
          \<lparr>entry_id = ''1700000000000'', key = ''__proto__'', defaultMessage = JStr ''x''\<rparr>]\<rparr>"
  by (simp add: proto_state_def greeting_loaded_def greeting_row_def addNewTranslation_def
      handlePropertyChange_def handleTranslationChange_def string_of_nat_now)

subsection \<open>New rows\<close>

lemma addNewTranslation_appends:
  "translationEntries (addNewTranslation now st)
     = translationEntries st @ [\<lparr>entry_id = string_of_nat now, key = [], defaultMessage = JStr []\<rparr>]
   \<and> (distinct (map entry_id (translationEntries st))
        \<and> string_of_nat now \<notin> set (map entry_id (translationEntries st))
      \<longrightarrow> distinct (map entry_id (translationEntries (addNewTranslation now st))))"
  by (simp add: addNewTranslation_def)

text \<open>
  C5. \<open>addNewTranslation\<close> appends a row with empty key and empty value
  (\<open>addNewTranslation_appends\<close>), but its id is the time of the call and not checked
  against the list: two rows added at the same millisecond share their id, and so do a new
  row and any row whose id is already that number. The ids of a reachable state need not be
  unique.
\<close>

theorem addRow_id_not_fresh:
  "\<not> distinct (map entry_id
        (translationEntries (addNewTranslation now (addNewTranslation now st))))
   \<and> (string_of_nat now \<in> set (map entry_id (translationEntries st))
      \<longrightarrow> \<not> distinct (map entry_id (translationEntries (addNewTranslation now st))))"
  by (simp add: addNewTranslation_def)

theorem addRow_id_not_fresh_witness:
  "map entry_id (translationEntries
      (addNewTranslation 1700000000000 (addNewTranslation 1700000000000 greeting_loaded)))
     = [''greeting'', ''1700000000000'', ''1700000000000'']
   \<and> \<not> distinct (map entry_id (translationEntries
      (addNewTranslation 1700000000000 (addNewTranslation 1700000000000 greeting_loaded))))
   \<and> map key (translationEntries
      (handlePropertyChange ''1700000000000'' ''app.title''
        (addNewTranslation 1700000000000 (addNewTranslation 1700000000000 greeting_loaded))))
     = [''greeting'', ''app.title'', ''app.title'']"
proof -
  have "map entry_id (translationEntries
      (addNewTranslation 1700000000000 (addNewTranslation 1700000000000 greeting_loaded)))
     = [''greeting'', ''1700000000000'', ''1700000000000'']"
    by (simp add: addNewTranslation_def greeting_loaded_def greeting_row_def string_of_nat_now)
  moreover have "map key (translationEntries
      (handlePropertyChange ''1700000000000'' ''app.title''
        (addNewTranslation 1700000000000 (addNewTranslation 1700000000000 greeting_loaded))))
     = [''greeting'', ''app.title'', ''app.title'']"
    by (simp add: addNewTranslation_def handlePropertyChange_def greeting_loaded_def
        greeting_row_def string_of_nat_now)
  ultimately show ?thesis
    using addRow_id_not_fresh [of 1700000000000 greeting_loaded] by simp
qed

subsection \<open>The exported object\<close>


lemma property_assign_proto: "property_assign acc ''__proto__'' v = acc"
  by (simp add: property_assign_def)

lemma map_of_property_assign:
  "k \<noteq> ''__proto__'' \<Longrightarrow> map_of (property_assign acc k v) = (map_of acc)(k \<mapsto> v)"
  by (simp add: property_assign_def update_conv')

lemma map_add_single: "m(k \<mapsto> v) ++ n = m ++ (map_of [(k, v)] ++ n)"
proof -
  have "m(k \<mapsto> v) = m ++ map_of [(k, v)]" by simp
  then show ?thesis by (simp only: map_add_assoc)
qed

lemma map_of_foldl_assign:
  "map_of (foldl (\<lambda>acc entry. property_assign acc (key entry)
                      (JObj [(''defaultMessage'', defaultMessage entry)])) acc entries)
     = map_of acc ++ map_of (rev (map (\<lambda>entry. (key entry,
                                  JObj [(''defaultMessage'', defaultMessage entry)]))
                              (filter (\<lambda>entry. key entry \<noteq> ''__proto__'') entries)))"
proof (induction entries arbitrary: acc)
  case Nil
  then show ?case by simp
next
  case (Cons e entries)
  let ?g = "\<lambda>entry. (key entry, JObj [(''defaultMessage'', defaultMessage entry)])"
  let ?rest = "map_of (rev (map ?g (filter (\<lambda>entry. key entry \<noteq> ''__proto__'') entries)))"
  show ?case
  proof (cases "key e = ''__proto__''")
    case True
    then show ?thesis by (simp add: Cons.IH property_assign_proto)
  next
    case False
    have "map_of (foldl (\<lambda>acc entry. property_assign acc (key entry)
                      (JObj [(''defaultMessage'', defaultMessage entry)])) acc (e # entries))
               = map_of (property_assign acc (key e) (JObj [(''defaultMessage'', defaultMessage e)]))
                 ++ ?rest"
      by (simp only: foldl_Cons Cons.IH)
    also have "\<dots> = (map_of acc)(key e \<mapsto> JObj [(''defaultMessage'', defaultMessage e)]) ++ ?rest"
      by (simp only: map_of_property_assign [OF False])
    also have "\<dots> = map_of acc ++ (map_of [?g e] ++ ?rest)"
      by (rule map_add_single)
    also have "map_of [?g e] ++ ?rest
               = map_of (rev (map ?g (filter (\<lambda>entry. key entry \<noteq> ''__proto__'') (e # entries))))"
      using False by (simp del: map_add_upd map_of.simps)
    finally show ?thesis .
  qed
qed


lemma translationsObject_lookup:
  "map_of (translationsObject validEntries)
     = map_of (rev (map (\<lambda>entry. (key entry, JObj [(''defaultMessage'', defaultMessage entry)]))
                     (filter (\<lambda>entry. key entry \<noteq> ''__proto__'') validEntries)))"
  by (simp add: translationsObject_def map_of_foldl_assign)

lemma filterE_Inr_filter:
  "filterE f xs = Inr ys \<Longrightarrow> ys = filter (\<lambda>x. f x = Inr True) xs"
proof (induction xs arbitrary: ys)
  case Nil
  then show ?case by simp
next
  case (Cons x xs)
  then obtain b ys' where "f x = Inr b" and "filterE f xs = Inr ys'"
    and "ys = (if b then x # ys' else ys')"
    by (auto split: sum.splits)
  with Cons.IH show ?case by auto
qed

text \<open>
  What the export writes: the export set is the rows that pass \<open>validEntry\<close>, in list
  order, and each property of the object, whose name is not \<^verbatim>\<open>__proto__\<close>, holds the
  value of the last row of the export set with that key.
\<close>

lemma export_object_lookup:
  assumes "snd (downloadJSON st) = Inr d"
  shows "map_of (download_object d)
     = map_of (rev (map (\<lambda>entry. (key entry, JObj [(''defaultMessage'', defaultMessage entry)]))
                     (filter (\<lambda>entry. validEntry st entry = Inr True \<and> key entry \<noteq> ''__proto__'')
                        (translationEntries st))))"
proof -
  from assms obtain validEntries where
    valid: "filterE (validEntry st) (translationEntries st) = Inr validEntries"
    and d: "download_object d = translationsObject validEntries"
    by (auto simp: downloadJSON_def split: sum.splits)
  from filterE_Inr_filter [OF valid]
  have "filter (\<lambda>entry. key entry \<noteq> ''__proto__'') validEntries
        = filter (\<lambda>entry. validEntry st entry = Inr True \<and> key entry \<noteq> ''__proto__'')
            (translationEntries st)"
    by (simp add: conj_commute)
  with d show ?thesis by (simp add: translationsObject_lookup)
qed

text \<open>
  C3. The export builds its object from the export set in list order, the later row of a
  key overwriting the earlier (\<open>export_object_lookup\<close>), with one exception that the
  claim does not have: no exported object has a property \<^verbatim>\<open>__proto__\<close>. A row of the
  export set with this key is lost.
\<close>

theorem export_omits_proto_key:
  "snd (downloadJSON st) = Inr d \<longrightarrow> map_of (download_object d) ''__proto__'' = None"
proof
  assume "snd (downloadJSON st) = Inr d"
  from export_object_lookup [OF this] show "map_of (download_object d) ''__proto__'' = None"
    by (auto simp: map_of_eq_None_iff)
qed

lemmas export_defs = eval_defs handleDownloadClick_def default_download_name_def

theorem export_omits_proto_key_witness:
  "translationEntries proto_state
     = [greeting_row,
        \<lparr>entry_id = ''1700000000000'', key = ''__proto__'', defaultMessage = JStr ''x''\<rparr>]
   \<and> validEntry proto_state
        \<lparr>entry_id = ''1700000000000'', key = ''__proto__'', defaultMessage = JStr ''x''\<rparr>
       = Inr True
   \<and> snd (downloadJSON (handleDownloadClick proto_state))
       = Inr \<lparr>download_name = ''en.json'',
              download_object = [(''greeting'', JObj [(''defaultMessage'', JStr ''Hello'')])]\<rparr>
   \<and> map_of [(''greeting'', JObj [(''defaultMessage'', JStr ''Hello'')])] ''__proto__'' = None"
proof -
  have rows: "translationEntries proto_state
     = [greeting_row,
        \<lparr>entry_id = ''1700000000000'', key = ''__proto__'', defaultMessage = JStr ''x''\<rparr>]"
    by (simp add: proto_state_eq)
  have valid: "validEntry proto_state
        \<lparr>entry_id = ''1700000000000'', key = ''__proto__'', defaultMessage = JStr ''x''\<rparr>
       = Inr True"
    by (simp add: proto_state_eq greeting_loaded_def greeting_data_def export_defs)
  have out: "snd (downloadJSON (handleDownloadClick proto_state))
       = Inr \<lparr>download_name = ''en.json'',
              download_object = [(''greeting'', JObj [(''defaultMessage'', JStr ''Hello'')])]\<rparr>"
    by (simp add: proto_state_eq greeting_loaded_def greeting_row_def greeting_data_def export_defs)
  from export_omits_proto_key [of "handleDownloadClick proto_state"] out
  have "map_of [(''greeting'', JObj [(''defaultMessage'', JStr ''Hello'')])] ''__proto__'' = None"
    by simp
  with rows valid out show ?thesis by simp
qed


subsection \<open>Export, then import\<close>







end
